theory Spec2Isabelle
  imports Complex_Main "HOL-Library.Multiset"
begin

section \<open>The notebook's data\<close>

text \<open>
  \<^verbatim>\<open>model_validation.ipynb\<close> works on one pandas frame \<open>df\<close>: an ordered collection of
  rows, each with the feature columns and the target column \<open>price\<close>. A row is a pair
  (features, price); \<open>df.drop('price', axis=1)\<close> is \<open>map fst\<close> and \<open>df.price\<close> is
  \<open>map snd\<close>. The prices are modelled as reals.
\<close>

type_synonym 'x frame = "('x \<times> real) list"

text \<open>
  What the library computes (a score, a metric, a prediction) is a floating-point value:
  a number, modelled as a real, or \<open>nan\<close>, which scikit-learn's \<open>score\<close> returns,
  without raising, on fewer than two rows. Infinities and rounding are outside the model.
\<close>

datatype num = Num real | NaN

fun is_nan :: "num \<Rightarrow> bool" where
  "is_nan NaN = True"
| "is_nan (Num v) = False"

fun num_val :: "num \<Rightarrow> real" where
  "num_val (Num v) = v"
| "num_val NaN = 0"

text \<open>
  Every failure of the notebook is an exception raised inside a library call: the
  notebook defines and catches none. \<open>InvalidK\<close> and \<open>EmptyDataset\<close> are what the
  fold splitter raises; \<open>LibraryError\<close> carries any other library exception.
  \<open>ModelFailure e\<close> is a failure \<open>e\<close> of the model wrapped and tagged as such; no cell
  of the notebook constructs it.
\<close>

datatype error = InvalidK | EmptyDataset | LibraryError string | ModelFailure error

text \<open>A \<open>LinearRegression()\<close> object: unfit when constructed, fitted after \<open>fit\<close>.\<close>

datatype 'm estimator = Unfit | Fitted 'm

text \<open>
  The library calls whose code is not in the notebook, taken as parameters:
  \<^item> \<open>seed\<close>: \<open>np.random.seed\<close>, the global random state it sets;
  \<^item> \<open>choice g n size replace\<close>: the draw of \<open>size\<close> positions out of \<open>n\<close> that
    \<open>DataFrame.sample\<close> makes from the global random state \<open>g\<close>, with the next state;
  \<^item> \<open>fit\<close>, \<open>predict\<close>, \<open>score\<close>: the methods of the estimator (\<open>fit\<close> sees the
    state of the object it is called on);
  \<^item> \<open>mean_squared_error\<close>: the metric of \<open>sklearn.metrics\<close>;
  \<^item> \<open>np_sqrt\<close>: \<open>np.sqrt\<close> on a number.
  All but the first and the last may raise.
\<close>

record ('g, 'x, 'm) lib =
  seed :: "int \<Rightarrow> 'g"
  choice :: "'g \<Rightarrow> nat \<Rightarrow> nat \<Rightarrow> bool \<Rightarrow> error + (nat list \<times> 'g)"
  fit :: "'m estimator \<Rightarrow> 'x list \<Rightarrow> real list \<Rightarrow> error + 'm"
  predict :: "'m \<Rightarrow> 'x list \<Rightarrow> error + num list"
  score :: "'m \<Rightarrow> 'x list \<Rightarrow> real list \<Rightarrow> error + num"
  mean_squared_error :: "real list \<Rightarrow> num list \<Rightarrow> error + num"
  np_sqrt :: "num \<Rightarrow> num"

text \<open>
  The notebook's namespace: the global random state, the names the cells bind, and two
  logs that are not notebook variables: \<open>fit_log\<close> records, in order, every call of
  \<open>lr.fit\<close> made so far (the state of the receiving object, and the \<open>X\<close> and \<open>y\<close> it
  was given), and \<open>model_calls\<close> records, in order, every call of a method of the
  estimator made so far, whether it returned or raised. Loop temporaries (\<open>df_sample\<close>,
  \<open>y_hat\<close>, \<open>X_train\<close>, ...) are bound by \<open>let\<close> and \<open>case\<close> in the cells below.
\<close>

datatype model_call = CallFit | CallPredict | CallScore

record ('g, 'x, 'm) notebook =
  rng :: 'g
  df :: "'x frame"
  lr :: "'m estimator"
  X :: "'x list"
  y :: "real list"
  sample_point :: "'x list"
  point_preds :: "num list list"
  r_2 :: "num list"
  simple_rmse :: "num list"
  train_r2 :: "num list"
  test_r2 :: "num list"
  fit_log :: "('m estimator \<times> 'x list \<times> real list) list"
  model_calls :: "model_call list"

text \<open>
  Running a cell either completes, or an exception propagates out of it; in both cases
  the namespace keeps every assignment made before.
\<close>

datatype 's run = Done 's | Raised error 's

fun final :: "'s run \<Rightarrow> 's" where
  "final (Done s) = s"
| "final (Raised e s) = s"

fun completed :: "'s run \<Rightarrow> bool" where
  "completed (Done s) = True"
| "completed (Raised e s) = False"

text \<open>A \<open>for\<close> loop whose body ignores the loop variable: \<open>for i in range(n)\<close>.\<close>

fun for_range :: "nat \<Rightarrow> ('s \<Rightarrow> 's run) \<Rightarrow> 's \<Rightarrow> 's run" where
  "for_range 0 body s = Done s"
| "for_range (Suc n) body s =
     (case body s of Done s' \<Rightarrow> for_range n body s' | Raised e s' \<Rightarrow> Raised e s')"

text \<open>A \<open>for\<close> loop over a sequence: \<open>for train_ind, test_ind in ...\<close>.\<close>

fun for_each :: "'a list \<Rightarrow> ('a \<Rightarrow> 's \<Rightarrow> 's run) \<Rightarrow> 's \<Rightarrow> 's run" where
  "for_each [] body s = Done s"
| "for_each (a # as) body s =
     (case body a s of Done s' \<Rightarrow> for_each as body s' | Raised e s' \<Rightarrow> Raised e s')"

section \<open>Library code modelled from its description\<close>

text \<open>
  Modelled from the spec: positional row selection (\<open>DataFrame.take\<close>, \<open>.iloc[...]\<close>) is
  pandas code, absent from the notebook. It returns the rows at the given positions, in
  the order given, and raises on a position outside the frame.
\<close>

definition take_rows :: "'a list \<Rightarrow> nat list \<Rightarrow> error + 'a list" where
  "take_rows fr idx =
     (if list_all (\<lambda>i. i < length fr) idx then Inr (map (\<lambda>i. fr ! i) idx)
      else Inl (LibraryError ''IndexError''))"

text \<open>
  Modelled from the spec: \<open>DataFrame.sample(n, replace)\<close> is pandas code, absent from the
  notebook: "draw a sample of sampleSize rows from dataset (with or without replacement
  per flag)". The positions come from \<open>choice\<close> on the global random state.
\<close>

definition frame_sample ::
  "('g, 'x, 'm) lib \<Rightarrow> 'g \<Rightarrow> nat \<Rightarrow> bool \<Rightarrow> 'a list \<Rightarrow> error + ('a list \<times> 'g)" where
  "frame_sample L g n replace fr =
     (case choice L g (length fr) n replace of
        Inl e \<Rightarrow> Inl e
      | Inr (idx, g') \<Rightarrow>
          (case take_rows fr idx of Inl e \<Rightarrow> Inl e | Inr rows \<Rightarrow> Inr (rows, g')))"

text \<open>
  Modelled from the spec: \<open>KFold(n_splits=k)\<close> and \<open>kf.split\<close> are scikit-learn code,
  absent from the notebook. "Inputs: k \<ge> 2 and \<le> row count of dataset"; "fails with
  InvalidK if k is out of the stated range; fails with EmptyDataset"; "divide the row
  index sequence into k nearly-equal contiguous groups -- the first n mod k groups get one
  extra row"; "the held-out group is fold i; the training set is the union of all other
  folds' rows". As in scikit-learn, the lower bound on \<open>k\<close> is checked when the splitter
  is constructed and the rest when the split is first iterated.
\<close>

definition KFold :: "nat \<Rightarrow> error + nat" where
  "KFold n_splits = (if n_splits < 2 then Inl InvalidK else Inr n_splits)"

definition fold_sizes :: "nat \<Rightarrow> nat \<Rightarrow> nat list" where
  "fold_sizes n k = map (\<lambda>i. n div k + (if i < n mod k then 1 else 0)) [0..<k]"

fun blocks :: "nat \<Rightarrow> nat list \<Rightarrow> nat list list" where
  "blocks current [] = []"
| "blocks current (fold_size # rest) =
     [current..<current + fold_size] # blocks (current + fold_size) rest"

definition test_folds :: "nat \<Rightarrow> nat \<Rightarrow> nat list list" where
  "test_folds k n = blocks 0 (fold_sizes n k)"

definition KFold_split :: "nat \<Rightarrow> nat \<Rightarrow> error + (nat list \<times> nat list) list" where
  "KFold_split k n =
     (if n = 0 then Inl EmptyDataset
      else if n < k then Inl InvalidK
      else Inr (map (\<lambda>test_ind. (filter (\<lambda>i. i \<notin> set test_ind) [0..<n], test_ind))
                  (test_folds k n)))"

text \<open>
  Modelled from the spec: \<open>np.mean\<close> and \<open>np.var\<close> are numpy code, absent from the
  notebook: the arithmetic mean, and the variance as the mean of the squared deviations
  from the mean ("a single point has no spread"). On an empty sequence, and on one that
  holds a \<open>nan\<close>, numpy gives \<open>nan\<close>.
\<close>

definition np_mean :: "num list \<Rightarrow> num" where
  "np_mean xs =
     (if xs \<noteq> [] \<and> list_all (\<lambda>x. \<not> is_nan x) xs
      then Num (sum_list (map num_val xs) / real (length xs)) else NaN)"

definition np_var :: "num list \<Rightarrow> num" where
  "np_var xs =
     (case np_mean xs of
        NaN \<Rightarrow> NaN
      | Num m \<Rightarrow> np_mean (map (\<lambda>x. Num ((num_val x - m)\<^sup>2)) xs))"

section \<open>The cells\<close>

text \<open>A library call inside a cell: its exception propagates, the namespace stays.\<close>

definition call :: "error + 'a \<Rightarrow> 's \<Rightarrow> ('a \<Rightarrow> 's run) \<Rightarrow> 's run" where
  "call r s k = (case r of Inl e \<Rightarrow> Raised e s | Inr v \<Rightarrow> k v)"

subsection \<open>The resampling loop\<close>

text \<open>
  The body of the loop of the seventh cell, with the notebook's \<open>5000\<close> and
  \<open>replace=True\<close> as the parameters \<open>n\<close> and \<open>replace\<close>:
  \<^verbatim>\<open>
    df_sample = df.sample(5000, replace=True)
    y = df_sample.price
    X = df_sample.drop('price', axis=1)
    lr = LinearRegression()
    lr.fit(X, y)
    y_hat = lr.predict(X)
    simple_rmse.append(np.sqrt(mean_squared_error(y, y_hat)))
    r_2.append(lr.score(X, y))
    y_hat_point = lr.predict(sample_point)
    point_preds.append(y_hat_point)
  \<close>
\<close>

definition repetition ::
  "('g, 'x, 'm) lib \<Rightarrow> nat \<Rightarrow> bool \<Rightarrow> ('g, 'x, 'm) notebook \<Rightarrow> ('g, 'x, 'm) notebook run" where
  "repetition L n replace s =
     call (frame_sample L (rng s) n replace (df s)) s (\<lambda>(df_sample, g).
     let s1 = s\<lparr>rng := g, y := map snd df_sample, X := map fst df_sample, lr := Unfit\<rparr>;
         s2 = s1\<lparr>fit_log := fit_log s1 @ [(lr s1, X s1, y s1)],
                 model_calls := model_calls s1 @ [CallFit]\<rparr> in
     call (fit L (lr s1) (X s1) (y s1)) s2 (\<lambda>m.
     let s3 = s2\<lparr>lr := Fitted m, model_calls := model_calls s2 @ [CallPredict]\<rparr> in
     call (predict L m (X s3)) s3 (\<lambda>y_hat.
     call (mean_squared_error L (y s3) y_hat) s3 (\<lambda>mse.
     let s4 = s3\<lparr>simple_rmse := simple_rmse s3 @ [np_sqrt L mse],
                 model_calls := model_calls s3 @ [CallScore]\<rparr> in
     call (score L m (X s4) (y s4)) s4 (\<lambda>r2.
     let s5 = s4\<lparr>r_2 := r_2 s4 @ [r2], model_calls := model_calls s4 @ [CallPredict]\<rparr> in
     call (predict L m (sample_point s5)) s5 (\<lambda>y_hat_point.
     Done (s5\<lparr>point_preds := point_preds s5 @ [y_hat_point]\<rparr>)))))))"

text \<open>
  The seventh cell, with the notebook's seed \<open>42\<close> and \<open>range(100)\<close> as the parameters
  \<open>sd\<close> and \<open>reps\<close>:
  \<^verbatim>\<open>
    np.random.seed(42)
    sample_point = df.drop('price', axis=1).sample(1)
    point_preds = []
    r_2 = []
    simple_rmse = []
    for i in range(100):
        ...
  \<close>
\<close>

definition resample ::
  "('g, 'x, 'm) lib \<Rightarrow> int \<Rightarrow> nat \<Rightarrow> bool \<Rightarrow> nat \<Rightarrow> ('g, 'x, 'm) notebook
     \<Rightarrow> ('g, 'x, 'm) notebook run" where
  "resample L sd n replace reps s =
     (let s0 = s\<lparr>rng := seed L sd\<rparr> in
      call (frame_sample L (rng s0) 1 False (map fst (df s0))) s0 (\<lambda>(pt, g).
      for_range reps (repetition L n replace)
        (s0\<lparr>rng := g, sample_point := pt, point_preds := [], r_2 := [], simple_rmse := []\<rparr>)))"

definition cell7 :: "('g, 'x, 'm) lib \<Rightarrow> ('g, 'x, 'm) notebook \<Rightarrow> ('g, 'x, 'm) notebook run" where
  "cell7 L = resample L 42 5000 True 100"

text \<open>
  The eighth cell reports the run:
  \<^verbatim>\<open>
    print(f'simple mean: {np.mean(simple_rmse)}')
    print(f'simple variance: {np.var(point_preds)}')
  \<close>
  \<open>point_preds\<close> is a list of one-row prediction arrays; \<open>np.var\<close> takes the variance
  over all their entries.
\<close>

record summary =
  simple_mean :: num
  simple_variance :: num

definition cell8 :: "('g, 'x, 'm) notebook \<Rightarrow> summary" where
  "cell8 s = \<lparr>simple_mean = np_mean (simple_rmse s),
              simple_variance = np_var (concat (point_preds s))\<rparr>"

text \<open>
  The resampling evaluation: the seventh cell, then the eighth. When the loop raises,
  the notebook stops there and no summary is produced.
\<close>

definition evaluate ::
  "('g, 'x, 'm) lib \<Rightarrow> int \<Rightarrow> nat \<Rightarrow> bool \<Rightarrow> nat \<Rightarrow> ('g, 'x, 'm) notebook
     \<Rightarrow> (error + summary) \<times> ('g, 'x, 'm) notebook" where
  "evaluate L sd n replace reps s =
     (case resample L sd n replace reps s of
        Done s' \<Rightarrow> (Inr (cell8 s'), s')
      | Raised e s' \<Rightarrow> (Inl e, s'))"

subsection \<open>The k-fold loop\<close>

text \<open>\<^verbatim>\<open>lr = LinearRegression()\<close>, a cell of its own, well before the k-fold loop.\<close>

definition cell21 :: "('g, 'x, 'm) notebook \<Rightarrow> ('g, 'x, 'm) notebook" where
  "cell21 s = s\<lparr>lr := Unfit\<rparr>"

text \<open>\<^verbatim>\<open>X = df.drop('price', axis=1); y = df.price\<close>\<close>

definition cell38 :: "('g, 'x, 'm) notebook \<Rightarrow> ('g, 'x, 'm) notebook" where
  "cell38 s = s\<lparr>X := map fst (df s), y := map snd (df s)\<rparr>"

text \<open>
  The body of the k-fold loop. It constructs no estimator: \<open>lr\<close> is the one the
  namespace holds.
  \<^verbatim>\<open>
    X_train, y_train = X.iloc[train_ind], y.iloc[train_ind]
    X_test, y_test = X.iloc[test_ind], y.iloc[test_ind]
    lr.fit(X_train, y_train)
    train_r2.append(lr.score(X_train, y_train))
    test_r2.append(lr.score(X_test, y_test))
  \<close>
\<close>

definition fold_body ::
  "('g, 'x, 'm) lib \<Rightarrow> nat list \<times> nat list \<Rightarrow> ('g, 'x, 'm) notebook
     \<Rightarrow> ('g, 'x, 'm) notebook run" where
  "fold_body L ind s =
     call (take_rows (X s) (fst ind)) s (\<lambda>X_train.
     call (take_rows (y s) (fst ind)) s (\<lambda>y_train.
     call (take_rows (X s) (snd ind)) s (\<lambda>X_test.
     call (take_rows (y s) (snd ind)) s (\<lambda>y_test.
     let s1 = s\<lparr>fit_log := fit_log s @ [(lr s, X_train, y_train)],
                model_calls := model_calls s @ [CallFit]\<rparr> in
     call (fit L (lr s) X_train y_train) s1 (\<lambda>m.
     let s2 = s1\<lparr>lr := Fitted m, model_calls := model_calls s1 @ [CallScore]\<rparr> in
     call (score L m X_train y_train) s2 (\<lambda>a.
     let s3 = s2\<lparr>train_r2 := train_r2 s2 @ [a],
                 model_calls := model_calls s2 @ [CallScore]\<rparr> in
     call (score L m X_test y_test) s3 (\<lambda>b.
     Done (s3\<lparr>test_r2 := test_r2 s3 @ [b]\<rparr>))))))))"

text \<open>
  The k-fold cell, with the notebook's \<open>n_splits=5\<close> as the parameter \<open>k\<close>:
  \<^verbatim>\<open>
    kf = KFold(n_splits=5)
    train_r2 = []
    test_r2 = []
    for train_ind, test_ind in kf.split(X, y):
        ...
  \<close>
\<close>

definition kfold_loop ::
  "('g, 'x, 'm) lib \<Rightarrow> nat \<Rightarrow> ('g, 'x, 'm) notebook \<Rightarrow> ('g, 'x, 'm) notebook run" where
  "kfold_loop L k s =
     call (KFold k) s (\<lambda>kf.
     let s1 = s\<lparr>train_r2 := [], test_r2 := []\<rparr> in
     call (KFold_split kf (length (X s1))) s1 (\<lambda>folds.
     for_each folds (fold_body L) s1))"

definition cell39 :: "('g, 'x, 'm) lib \<Rightarrow> ('g, 'x, 'm) notebook \<Rightarrow> ('g, 'x, 'm) notebook run" where
  "cell39 L = kfold_loop L 5"

text \<open>
  The cross-validation: the cells that bind \<open>X\<close> and \<open>y\<close>, run the loop and report
  \<open>np.mean(train_r2)\<close> and \<open>np.mean(test_r2)\<close>.
\<close>

definition crossValidate ::
  "('g, 'x, 'm) lib \<Rightarrow> nat \<Rightarrow> ('g, 'x, 'm) notebook
     \<Rightarrow> (error + num \<times> num) \<times> ('g, 'x, 'm) notebook" where
  "crossValidate L k s =
     (case kfold_loop L k (cell38 s) of
        Done s' \<Rightarrow> (Inr (np_mean (train_r2 s'), np_mean (test_r2 s')), s')
      | Raised e s' \<Rightarrow> (Inl e, s'))"

section \<open>A small library to run the cells on\<close>

text \<open>
  One numeric feature; the random state is a counter; a draw of \<open>k\<close> positions out
  of \<open>n\<close> takes them in row order starting at the counter, wrapping around; a draw of
  more than \<open>n\<close> positions without replacement, or of any position out of no rows, is
  rejected. The estimator predicts the mean target of its training rows everywhere and
  refuses an empty training set; its score is minus the sum of squared errors, and
  \<open>nan\<close> on fewer than two rows, as scikit-learn's is. The metric refuses \<open>nan\<close>
  predictions.
\<close>

definition toy_choice :: "nat \<Rightarrow> nat \<Rightarrow> nat \<Rightarrow> bool \<Rightarrow> error + (nat list \<times> nat)" where
  "toy_choice g n k replace =
     (if n = 0 \<and> 0 < k then Inl (LibraryError ''ValueError'')
      else if \<not> replace \<and> n < k then Inl (LibraryError ''ValueError'')
      else Inr (map (\<lambda>j. (g + j) mod n) [0..<k], Suc g))"

definition toy_score :: "real \<Rightarrow> real list \<Rightarrow> real list \<Rightarrow> error + num" where
  "toy_score m xs ys =
     Inr (if length ys < 2 then NaN else Num (- sum_list (map (\<lambda>v. (v - m)\<^sup>2) ys)))"

definition toy_mse :: "real list \<Rightarrow> num list \<Rightarrow> error + num" where
  "toy_mse ys yh =
     (if 0 < length ys \<and> length ys = length yh \<and> list_all (\<lambda>p. \<not> is_nan p) yh
      then Inr (Num (sum_list (map (\<lambda>(a, b). (a - num_val b)\<^sup>2) (zip ys yh)) / real (length ys)))
      else Inl (LibraryError ''ValueError''))"

definition toy_sqrt :: "num \<Rightarrow> num" where
  "toy_sqrt v = (case v of NaN \<Rightarrow> NaN | Num r \<Rightarrow> Num (sqrt r))"

definition toy_lib :: "(nat, real, real) lib" where
  "toy_lib = \<lparr>
     seed = (\<lambda>sd. nat \<bar>sd\<bar>),
     choice = toy_choice,
     fit = (\<lambda>est xs ys. if xs = [] then Inl (LibraryError ''ValueError'')
                         else Inr (sum_list ys / real (length ys))),
     predict = (\<lambda>m xs. Inr (map (\<lambda>x. Num m) xs)),
     score = toy_score,
     mean_squared_error = toy_mse,
     np_sqrt = toy_sqrt\<rparr>"

text \<open>The same, with an estimator that depends on the order of its training rows:
  it predicts the target of the first one.\<close>

definition first_lib :: "(nat, real, real) lib" where
  "first_lib = toy_lib\<lparr>fit := (\<lambda>est xs ys. case ys of [] \<Rightarrow> Inl (LibraryError ''ValueError'')
                                              | v # vs \<Rightarrow> Inr v)\<rparr>"

text \<open>The same as \<open>toy_lib\<close>, with an estimator whose method \<open>c\<close> fails on rows that
  contain the feature value \<open>3\<close>.\<close>

definition failing_lib :: "model_call \<Rightarrow> (nat, real, real) lib" where
  "failing_lib c = toy_lib\<lparr>
     fit := (\<lambda>est xs ys. if c = CallFit \<and> 3 \<in> set xs then Inl (LibraryError ''LinAlgError'')
                          else fit toy_lib est xs ys),
     predict := (\<lambda>m xs. if c = CallPredict \<and> 3 \<in> set xs then Inl (LibraryError ''LinAlgError'')
                         else predict toy_lib m xs),
     score := (\<lambda>m xs ys. if c = CallScore \<and> 3 \<in> set xs then Inl (LibraryError ''LinAlgError'')
                          else score toy_lib m xs ys)\<rparr>"

definition nb0 :: "real frame \<Rightarrow> (nat, real, real) notebook" where
  "nb0 d = \<lparr>rng = 0, df = d, lr = Unfit, X = [], y = [], sample_point = [],
            point_preds = [], r_2 = [], simple_rmse = [], train_r2 = [], test_r2 = [],
            fit_log = [], model_calls = []\<rparr>"

section \<open>Properties of runs and of the library\<close>

text \<open>Two namespaces agree on everything the resampling loop reads and records.\<close>

definition agree :: "('g, 'x, 'm) notebook \<Rightarrow> ('g, 'x, 'm) notebook \<Rightarrow> bool" where
  "agree a b = (rng a = rng b \<and> df a = df b \<and> sample_point a = sample_point b
     \<and> point_preds a = point_preds b \<and> r_2 a = r_2 b \<and> simple_rmse a = simple_rmse b)"

text \<open>
  What the notebook relies on from the library: a draw returns as many positions as were
  asked for, and \<open>predict\<close> returns one prediction for each row it is given.
\<close>

definition draws_exact :: "('g, 'x, 'm) lib \<Rightarrow> bool" where
  "draws_exact L = (\<forall>g n k r idx g'. choice L g n k r = Inr (idx, g') \<longrightarrow> length idx = k)"

definition predicts_rowwise :: "('g, 'x, 'm) lib \<Rightarrow> bool" where
  "predicts_rowwise L = (\<forall>m xs ps. predict L m xs = Inr ps \<longrightarrow> length ps = length xs)"

text \<open>
  A draw without replacement returns no position twice. The in-sample score of a fresh
  estimator on a frame: fit on its rows, then score on the same rows. A library is
  order-blind when that score does not depend on the order of the rows.
\<close>

definition draws_distinct :: "('g, 'x, 'm) lib \<Rightarrow> bool" where
  "draws_distinct L = (\<forall>g n k idx g'. choice L g n k False = Inr (idx, g') \<longrightarrow> distinct idx)"

definition in_sample_score :: "('g, 'x, 'm) lib \<Rightarrow> 'x frame \<Rightarrow> error + num" where
  "in_sample_score L fr =
     (case fit L Unfit (map fst fr) (map snd fr) of
        Inl e \<Rightarrow> Inl e
      | Inr m \<Rightarrow> score L m (map fst fr) (map snd fr))"

definition order_blind :: "('g, 'x, 'm) lib \<Rightarrow> bool" where
  "order_blind L = (\<forall>fr fr'. mset fr = mset fr' \<longrightarrow> in_sample_score L fr = in_sample_score L fr')"

text \<open>Every call of \<open>fit\<close> logged from position \<open>k\<close> on satisfies \<open>P\<close>.\<close>

definition logged_from ::
  "nat \<Rightarrow> ('m estimator \<times> 'x list \<times> real list \<Rightarrow> bool) \<Rightarrow> ('g, 'x, 'm) notebook \<Rightarrow> bool" where
  "logged_from k P s = (k \<le> length (fit_log s) \<and> list_all P (drop k (fit_log s)))"

section \<open>The k-fold partition\<close>

lemma sum_fold_sizes_aux:
  "sum_list (map (\<lambda>i. a + (if i < r then 1 else 0)) [0..<k]) = k * a + min r k"
  by (induction k) (auto simp: min_def)

lemma sum_fold_sizes: "0 < k \<Longrightarrow> sum_list (fold_sizes n k) = n"
proof -
  assume k: "0 < k"
  have "n mod k < k" using k by simp
  then have "min (n mod k) k = n mod k" by simp
  then show ?thesis
    unfolding fold_sizes_def by (simp add: sum_fold_sizes_aux)
qed

lemma concat_blocks: "concat (blocks c ss) = [c..<c + sum_list ss]"
proof (induction ss arbitrary: c)
  case Nil
  show ?case by simp
next
  case (Cons s ss)
  have "[c..<c + s] @ [c + s..<c + s + sum_list ss] = [c..<c + s + sum_list ss]"
    by (metis le_add1 upt_add_eq_append)
  with Cons show ?case by (simp add: add.assoc)
qed

lemma length_blocks: "length (blocks c ss) = length ss"
  by (induction ss arbitrary: c) auto

lemma map_length_blocks: "map length (blocks c ss) = ss"
  by (induction ss arbitrary: c) auto

lemma ceil_div:
  "0 < k \<Longrightarrow> (n + k - 1) div k = n div k + (if n mod k = 0 then 0 else (1::nat))"
proof -
  assume k: "0 < k"
  define q where "q = n div k"
  define r where "r = n mod k"
  have n: "n = q * k + r" unfolding q_def r_def by simp
  have r: "r < k" using k by (simp add: r_def)
  have step: "(a + c * k) div k = c + a div k" for a c
    using k by (intro div_mult_self1) simp
  show ?thesis
  proof (cases "r = 0")
    case True
    then have "n + k - 1 = (k - 1) + q * k" using n k by simp
    then have "(n + k - 1) div k = q + (k - 1) div k" by (simp only: step)
    then show ?thesis using True k by (simp add: q_def r_def)
  next
    case False
    then have "n + k - 1 = (r - 1) + (q + 1) * k" using n k by (simp add: algebra_simps)
    then have "(n + k - 1) div k = (q + 1) + (r - 1) div k" by (simp only: step)
    moreover have "r - 1 < k" using r by simp
    ultimately show ?thesis using False by (simp add: q_def r_def)
  qed
qed

lemma length_test_folds: "length (test_folds k n) = k"
  by (simp add: test_folds_def length_blocks fold_sizes_def)

lemma concat_test_folds: "0 < k \<Longrightarrow> concat (test_folds k n) = [0..<n]"
  by (simp add: test_folds_def concat_blocks sum_fold_sizes)

lemma sizes_test_folds: "map length (test_folds k n) = fold_sizes n k"
  by (simp add: test_folds_def map_length_blocks)

lemma count_larger:
  "length (filter (\<lambda>i. i < r) [0..<k]) = min r k"
  by (induction k) (auto simp: min_def)

lemma fold_sizes_larger:
  "0 < k \<Longrightarrow> length (filter (\<lambda>s. s = n div k + 1) (fold_sizes n k)) = n mod k"
proof -
  assume k: "0 < k"
  have "filter (\<lambda>s. s = n div k + 1) (fold_sizes n k)
        = map (\<lambda>i. n div k + (if i < n mod k then 1 else 0)) (filter (\<lambda>i. i < n mod k) [0..<k])"
    unfolding fold_sizes_def filter_map by (rule arg_cong[where f="map _"], rule filter_cong) auto
  then show ?thesis using k by (simp add: count_larger)
qed

lemma fold_sizes_floor_ceil:
  "0 < k \<Longrightarrow> list_all (\<lambda>s. s = n div k \<or> s = (n + k - 1) div k) (fold_sizes n k)"
proof -
  assume k: "0 < k"
  show ?thesis
    unfolding ceil_div[OF k] by (auto simp: fold_sizes_def list_all_iff)
qed

lemma KFold_split_ok:
  "2 \<le> k \<Longrightarrow> k \<le> n \<Longrightarrow>
   KFold_split k n = Inr (map (\<lambda>test_ind. (filter (\<lambda>i. i \<notin> set test_ind) [0..<n], test_ind))
                  (test_folds k n))"
  by (simp add: KFold_split_def)

lemma snd_KFold_split:
  "map snd (map (\<lambda>test_ind. (f test_ind, test_ind)) tf) = tf"
  by (simp add: comp_def)

text \<open>
  C1. For every \<open>k \<ge> 2\<close> and every dataset of \<open>n \<ge> k\<close> rows, the split succeeds with
  \<open>k\<close> folds whose held-out index lists, put one after the other in fold order, are
  exactly \<open>0, ..., n - 1\<close>: every row index is covered exactly once, and each fold is a
  contiguous block in the original row order. Fold \<open>i\<close> has \<open>n div k + 1\<close> rows when
  \<open>i < n mod k\<close> and \<open>n div k\<close> rows otherwise, so every size is the floor or the
  ceiling of \<open>n / k\<close>, and exactly \<open>n mod k\<close> folds, the first ones, have the extra row.
\<close>

theorem kfold_partition:
  assumes "2 \<le> k" and "k \<le> n"
  shows "\<exists>folds. KFold_split k n = Inr folds
     \<and> length folds = k
     \<and> concat (map snd folds) = [0..<n]
     \<and> map length (map snd folds)
         = map (\<lambda>i. if i < n mod k then n div k + 1 else n div k) [0..<k]
     \<and> list_all (\<lambda>s. s = n div k \<or> s = (n + k - 1) div k) (map length (map snd folds))
     \<and> length (filter (\<lambda>s. s = n div k + 1) (map length (map snd folds))) = n mod k"
proof -
  have k: "0 < k" using assms by simp
  let ?folds = "map (\<lambda>test_ind. (filter (\<lambda>i. i \<notin> set test_ind) [0..<n], test_ind))
                  (test_folds k n)"
  have s: "map snd ?folds = test_folds k n" by (rule snd_KFold_split)
  have "KFold_split k n = Inr ?folds" using assms by (rule KFold_split_ok)
  moreover have "length ?folds = k" by (simp add: length_test_folds)
  moreover have "concat (map snd ?folds) = [0..<n]"
    unfolding s using k by (rule concat_test_folds)
  moreover have "map length (map snd ?folds)
         = map (\<lambda>i. if i < n mod k then n div k + 1 else n div k) [0..<k]"
    unfolding s sizes_test_folds by (simp add: fold_sizes_def)
  moreover have "list_all (\<lambda>s. s = n div k \<or> s = (n + k - 1) div k) (map length (map snd ?folds))"
    unfolding s sizes_test_folds using k by (rule fold_sizes_floor_ceil)
  moreover have "length (filter (\<lambda>s. s = n div k + 1) (map length (map snd ?folds))) = n mod k"
    unfolding s sizes_test_folds using k by (rule fold_sizes_larger)
  ultimately show ?thesis by blast
qed

theorem kfold_partition_witness:
  "(2::nat) \<le> 3 \<and> (3::nat) \<le> 10
   \<and> KFold_split 3 10 = Inr [([4, 5, 6, 7, 8, 9], [0, 1, 2, 3]),
                        ([0, 1, 2, 3, 7, 8, 9], [4, 5, 6]),
                        ([0, 1, 2, 3, 4, 5, 6], [7, 8, 9])]
   \<and> (\<exists>folds. KFold_split 3 10 = Inr folds \<and> length folds = 3
        \<and> concat (map snd folds) = [0..<10]
        \<and> length (filter (\<lambda>s. s = 10 div 3 + 1) (map length (map snd folds))) = 10 mod 3)"
proof -
  have a: "(2::nat) \<le> 3" and b: "(3::nat) \<le> 10" by simp_all
  have c: "KFold_split 3 10 = Inr [([4, 5, 6, 7, 8, 9], [0, 1, 2, 3]),
                        ([0, 1, 2, 3, 7, 8, 9], [4, 5, 6]),
                        ([0, 1, 2, 3, 4, 5, 6], [7, 8, 9])]"
    by code_simp
  from kfold_partition[OF a b] a b c show ?thesis by blast
qed

section \<open>Evaluating the cells on concrete inputs\<close>

lemmas cell_defs = resample_def repetition_def call_def frame_sample_def take_rows_def
  Let_def kfold_loop_def fold_body_def cell38_def cell21_def KFold_def KFold_split_def test_folds_def
  fold_sizes_def evaluate_def crossValidate_def cell8_def np_mean_def np_var_def
lemmas toy_defs = toy_lib_def toy_choice_def toy_score_def toy_mse_def toy_sqrt_def nb0_def
  first_lib_def failing_lib_def

lemma for_range_numeral:
  "for_range (numeral k) body s =
     (case body s of Done s' \<Rightarrow> for_range (pred_numeral k) body s' | Raised e s' \<Rightarrow> Raised e s')"
  by (simp add: numeral_eq_Suc)

lemma for_range_1:
  "for_range 1 body s = (case body s of Done s' \<Rightarrow> Done s' | Raised e s' \<Rightarrow> Raised e s')"
  by (simp split: run.splits)

lemmas run_simps = for_range_numeral for_range_1 upt_conv_Cons power2_eq_square

section \<open>The loops and the loop bodies\<close>

lemma repetition_Done:
  assumes "repetition L n replace s = Done s'"
  shows "\<exists>df_sample g m y_hat mse r2 yp.
     frame_sample L (rng s) n replace (df s) = Inr (df_sample, g)
   \<and> fit L Unfit (map fst df_sample) (map snd df_sample) = Inr m
   \<and> predict L m (map fst df_sample) = Inr y_hat
   \<and> mean_squared_error L (map snd df_sample) y_hat = Inr mse
   \<and> score L m (map fst df_sample) (map snd df_sample) = Inr r2
   \<and> predict L m (sample_point s) = Inr yp
   \<and> s' = s\<lparr>rng := g, y := map snd df_sample, X := map fst df_sample, lr := Fitted m,
            fit_log := fit_log s @ [(Unfit, map fst df_sample, map snd df_sample)],
            model_calls := model_calls s @ [CallFit, CallPredict, CallScore, CallPredict],
            simple_rmse := simple_rmse s @ [np_sqrt L mse],
            r_2 := r_2 s @ [r2],
            point_preds := point_preds s @ [yp]\<rparr>"
  using assms
  by (auto simp: repetition_def call_def Let_def split: sum.splits prod.splits)

lemma repetition_frame:
  "df (final (repetition L n replace s)) = df s"
  "sample_point (final (repetition L n replace s)) = sample_point s"
  "train_r2 (final (repetition L n replace s)) = train_r2 s"
  "test_r2 (final (repetition L n replace s)) = test_r2 s"
  by (auto simp: repetition_def call_def Let_def split: sum.splits prod.splits)


lemma for_range_frame:
  assumes "\<And>s. f (final (body s)) = f s"
  shows "f (final (for_range n body s)) = f s"
proof (induction n arbitrary: s)
  case 0
  show ?case by simp
next
  case (Suc n)
  show ?case
  proof (cases "body s")
    case (Done s')
    with Suc[of s'] assms[of s] show ?thesis by simp
  next
    case (Raised e s')
    with assms[of s] show ?thesis by simp
  qed
qed

lemma for_range_grows:
  assumes "\<And>s s'. body s = Done s' \<Longrightarrow> \<exists>v. acc s' = acc s @ [v]"
    and "for_range n body s = Done s'"
  shows "\<exists>vs. acc s' = acc s @ vs \<and> length vs = n"
  using assms(2)
proof (induction n arbitrary: s)
  case 0
  then show ?case by simp
next
  case (Suc n)
  from Suc.prems obtain s1 where b: "body s = Done s1" and r: "for_range n body s1 = Done s'"
    by (auto split: run.splits)
  from assms(1)[OF b] obtain v where v: "acc s1 = acc s @ [v]" by blast
  from Suc.IH[OF r] obtain vs where "acc s' = acc s1 @ vs" "length vs = n" by blast
  with v have "acc s' = acc s @ (v # vs) \<and> length (v # vs) = Suc n" by simp
  then show ?case by blast
qed


lemma repetition_appends:
  assumes "repetition L n replace s = Done s'"
  shows "\<exists>v. r_2 s' = r_2 s @ [v]" "\<exists>v. simple_rmse s' = simple_rmse s @ [v]"
    "\<exists>v. point_preds s' = point_preds s @ [v]"
  using repetition_Done[OF assms] by auto

lemma resample_Done:
  assumes "resample L sd n replace reps s = Done s'"
  shows "\<exists>pt g. frame_sample L (seed L sd) 1 False (map fst (df s)) = Inr (pt, g)
     \<and> for_range reps (repetition L n replace)
         (s\<lparr>rng := g, sample_point := pt, point_preds := [], r_2 := [], simple_rmse := []\<rparr>)
        = Done s'"
  using assms by (auto simp: resample_def call_def Let_def split: sum.splits prod.splits)

lemma repetition_agree:
  "agree a b \<Longrightarrow> rel_run agree (repetition L n replace a) (repetition L n replace b)"
  unfolding agree_def repetition_def call_def Let_def
  by (auto split: sum.splits prod.splits)

lemma for_range_rel:
  assumes "\<And>a b. R a b \<Longrightarrow> rel_run R (body a) (body b)" and "R a b"
  shows "rel_run R (for_range n body a) (for_range n body b)"
  using assms(2)
proof (induction n arbitrary: a b)
  case 0
  then show ?case by simp
next
  case (Suc n)
  from assms(1)[OF Suc.prems] show ?case
    by (cases "body a"; cases "body b") (auto intro: Suc.IH)
qed

lemma resample_agree:
  assumes "df a = df b"
  shows "(\<exists>e sa sb. resample L sd n replace reps a = Raised e sa
            \<and> resample L sd n replace reps b = Raised e sb)
       \<or> (\<exists>sa sb. resample L sd n replace reps a = Done sa
            \<and> resample L sd n replace reps b = Done sb \<and> agree sa sb)"
proof (cases "frame_sample L (seed L sd) 1 False (map fst (df b))")
  case (Inl e)
  then show ?thesis using assms
    by (simp add: resample_def call_def Let_def)
next
  case (Inr r)
  obtain pt g where r: "r = (pt, g)" by (cases r)
  let ?a = "a\<lparr>rng := g, sample_point := pt, point_preds := [], r_2 := [], simple_rmse := []\<rparr>"
  let ?b = "b\<lparr>rng := g, sample_point := pt, point_preds := [], r_2 := [], simple_rmse := []\<rparr>"
  have ra: "resample L sd n replace reps a = for_range reps (repetition L n replace) ?a"
    and rb: "resample L sd n replace reps b = for_range reps (repetition L n replace) ?b"
    using Inr r assms by (simp_all add: resample_def call_def Let_def)
  have ab: "agree ?a ?b" using assms by (simp add: agree_def)
  have "rel_run agree (for_range reps (repetition L n replace) ?a)
                      (for_range reps (repetition L n replace) ?b)"
    by (rule for_range_rel[OF repetition_agree ab])
  then show ?thesis
    unfolding ra rb
    by (cases "for_range reps (repetition L n replace) ?a";
        cases "for_range reps (repetition L n replace) ?b") auto
qed

lemma resample_frame: "df (final (resample L sd n replace reps s)) = df s"
proof (cases "frame_sample L (seed L sd) 1 False (map fst (df s))")
  case (Inl e)
  then show ?thesis by (simp add: resample_def call_def Let_def)
next
  case (Inr r)
  obtain pt g where r: "r = (pt, g)" by (cases r)
  have "resample L sd n replace reps s = for_range reps (repetition L n replace)
     (s\<lparr>rng := g, sample_point := pt, point_preds := [], r_2 := [], simple_rmse := []\<rparr>)"
    using Inr r by (simp add: resample_def call_def Let_def)
  then show ?thesis
    using for_range_frame[where f=df and body="repetition L n replace", OF repetition_frame(1)]
    by simp
qed

lemma snd_evaluate: "snd (evaluate L sd n replace reps s) = final (resample L sd n replace reps s)"
  by (simp add: evaluate_def split: run.splits)

lemma fold_body_frame: "df (final (fold_body L ind s)) = df s"
  by (auto simp: fold_body_def call_def Let_def split: sum.splits)

lemma for_each_frame:
  assumes "\<And>a s. f (final (body a s)) = f s"
  shows "f (final (for_each xs body s)) = f s"
proof (induction xs arbitrary: s)
  case Nil
  show ?case by simp
next
  case (Cons a xs)
  show ?case
  proof (cases "body a s")
    case (Done s')
    with Cons[of s'] assms[of a s] show ?thesis by simp
  next
    case (Raised e s')
    with assms[of a s] show ?thesis by simp
  qed
qed

lemma kfold_loop_frame: "df (final (kfold_loop L k s)) = df s"
  using for_each_frame[where f=df and body="fold_body L", OF fold_body_frame]
  by (auto simp: kfold_loop_def call_def Let_def split: sum.splits)

lemma snd_crossValidate: "snd (crossValidate L k s) = final (kfold_loop L k (cell38 s))"
  by (simp add: crossValidate_def split: run.splits)









lemma resample_lengths:
  assumes "resample L sd n replace reps s = Done s'"
  shows "length (r_2 s') = reps \<and> length (simple_rmse s') = reps \<and> length (point_preds s') = reps"
proof -
  from resample_Done[OF assms] obtain pt g where
    loop: "for_range reps (repetition L n replace)
         (s\<lparr>rng := g, sample_point := pt, point_preds := [], r_2 := [], simple_rmse := []\<rparr>)
        = Done s'" by blast
  show ?thesis
    using for_range_grows[where acc=r_2, OF _ loop] repetition_appends(1)
      for_range_grows[where acc=simple_rmse, OF _ loop] repetition_appends(2)
      for_range_grows[where acc=point_preds, OF _ loop] repetition_appends(3)
    by (auto; blast)
qed



lemma np_var_single: "np_var [v] = (case v of Num r \<Rightarrow> Num 0 | NaN \<Rightarrow> NaN)"
  by (cases v) (simp_all add: np_var_def np_mean_def)

lemma frame_sample_length:
  assumes "draws_exact L" and "frame_sample L g k r fr = Inr (rows, g')"
  shows "length rows = k"
proof -
  from assms(2) obtain idx where c: "choice L g (length fr) k r = Inr (idx, g')"
    and rows: "rows = map (\<lambda>i. fr ! i) idx"
    by (auto simp: frame_sample_def take_rows_def split: sum.splits prod.splits if_splits)
  from assms(1) c have "length idx = k" unfolding draws_exact_def by blast
  with rows show ?thesis by simp
qed

lemma toy_lib_draws_exact: "draws_exact toy_lib"
  by (auto simp: draws_exact_def toy_lib_def toy_choice_def split: if_splits)

lemma toy_lib_predicts_rowwise: "predicts_rowwise toy_lib"
  by (auto simp: predicts_rowwise_def toy_lib_def)

lemma mod_shift_inj_le:
  fixes g n i j :: nat
  assumes "(g + i) mod n = (g + j) mod n" "i \<le> j" "j < n"
  shows "i = j"
proof -
  have "g + i \<le> g + j" using assms(2) by simp
  then have "n dvd (g + j) - (g + i)" using assms(1) by (metis mod_eq_dvd_iff_nat)
  then have d: "n dvd j - i" by simp
  have l: "j - i < n" using assms(3) by simp
  have "j - i = 0"
  proof (rule ccontr)
    assume "j - i \<noteq> 0"
    then have "n \<le> j - i" using d by (simp add: dvd_imp_le)
    with l show False by simp
  qed
  then show ?thesis using assms(2) by simp
qed

lemma mod_shift_inj:
  fixes g n i j :: nat
  assumes "(g + i) mod n = (g + j) mod n" "i < n" "j < n"
  shows "i = j"
proof (cases "i \<le> j")
  case True
  with assms show ?thesis by (intro mod_shift_inj_le[of g i n j])
next
  case False
  then have "j \<le> i" by simp
  with assms have "j = i" by (intro mod_shift_inj_le[of g j n i]) simp_all
  then show ?thesis by simp
qed

lemma take_all_rows:
  assumes "distinct idx" "length idx = length fr" "list_all (\<lambda>i. i < length fr) idx"
  shows "mset (map (\<lambda>i. fr ! i) idx) = mset fr"
proof -
  have sub: "set idx \<subseteq> {0..<length fr}" using assms(3) by (auto simp: list_all_iff)
  have "card (set idx) = length fr" using assms(1,2) by (simp add: distinct_card)
  then have "set idx = {0..<length fr}" using sub by (simp add: card_subset_eq)
  then have "mset idx = mset [0..<length fr]"
    using assms(1) by (metis mset_set_set mset_upt)
  then have "image_mset (\<lambda>i. fr ! i) (mset idx) = image_mset (\<lambda>i. fr ! i) (mset [0..<length fr])"
    by simp
  then have "mset (map (\<lambda>i. fr ! i) idx) = mset (map (\<lambda>i. fr ! i) [0..<length fr])"
    by simp
  then show ?thesis by (simp add: map_nth)
qed

lemma sum_list_mset_cong:
  "mset xs = mset ys \<Longrightarrow> sum_list (map f xs) = (sum_list (map f ys) :: real)"
  by (metis sum_mset_sum_list mset_map)

lemma frame_sample_subset:
  assumes "frame_sample L g k r fr = Inr (rows, g')"
  shows "set rows \<subseteq> set fr"
  using assms
  by (auto simp: frame_sample_def take_rows_def list_all_iff split: sum.splits prod.splits if_splits)

lemma frame_sample_all:
  assumes "draws_exact L" and "draws_distinct L"
    and "frame_sample L g (length fr) False fr = Inr (rows, g')"
  shows "mset rows = mset fr"
proof -
  from assms(3) obtain idx where c: "choice L g (length fr) (length fr) False = Inr (idx, g')"
    and ok: "list_all (\<lambda>i. i < length fr) idx" and rows: "rows = map (\<lambda>i. fr ! i) idx"
    by (auto simp: frame_sample_def take_rows_def split: sum.splits prod.splits if_splits)
  from assms(1) c have len: "length idx = length fr" unfolding draws_exact_def by blast
  from assms(2) c have dis: "distinct idx" unfolding draws_distinct_def by blast
  show ?thesis unfolding rows using dis len ok by (rule take_all_rows)
qed

lemma for_range_inv:
  assumes "\<And>s s'. I s \<Longrightarrow> body s = Done s' \<Longrightarrow> I s'" and "I s"
    and "for_range n body s = Done s'"
  shows "I s'"
  using assms(2,3)
proof (induction n arbitrary: s)
  case 0
  then show ?case by simp
next
  case (Suc n)
  from Suc.prems(2) obtain s1 where b: "body s = Done s1" and r: "for_range n body s1 = Done s'"
    by (auto split: run.splits)
  from assms(1)[OF Suc.prems(1) b] r show ?case by (rule Suc.IH)
qed

text \<open>What a completed repetition leaves: the dataset and the query point as they were,
  one more fit logged, on the rows it drew, and one more score, of the estimator fitted on
  those rows.\<close>

lemma repetition_step:
  assumes "repetition L n replace s = Done s'"
  shows "\<exists>df_sample g. frame_sample L (rng s) n replace (df s) = Inr (df_sample, g)
     \<and> df s' = df s \<and> sample_point s' = sample_point s
     \<and> fit_log s' = fit_log s @ [(Unfit, map fst df_sample, map snd df_sample)]
     \<and> (\<exists>v. in_sample_score L df_sample = Inr v \<and> r_2 s' = r_2 s @ [v])"
  using repetition_Done[OF assms] by (auto simp: in_sample_score_def)

lemma logged_from_append:
  "logged_from k P s \<Longrightarrow> fit_log s' = fit_log s @ [c] \<Longrightarrow> P c \<Longrightarrow> logged_from k P s'"
  by (simp add: logged_from_def)

lemma toy_lib_draws_distinct: "draws_distinct toy_lib"
proof -
  have "distinct (map (\<lambda>j. (g + j) mod n) [0..<k])" if "\<not> n < k" for g n k :: nat
  proof -
    have "inj_on (\<lambda>j. (g + j) mod n) (set [0..<k])"
      using that by (auto intro!: inj_onI mod_shift_inj[of g _ n])
    then show ?thesis by (simp add: distinct_map)
  qed
  then show ?thesis
    by (auto simp: draws_distinct_def toy_lib_def toy_choice_def split: if_splits)
qed

lemma toy_lib_order_blind: "order_blind toy_lib"
proof -
  have "in_sample_score toy_lib fr = in_sample_score toy_lib fr'"
    if m: "mset fr = mset fr'" for fr fr' :: "real frame"
  proof -
    have l: "length fr = length fr'" using m by (rule mset_eq_length)
    then have e: "fr = [] \<longleftrightarrow> fr' = []" by auto
    have s: "sum_list (map f fr) = sum_list (map f fr')" for f :: "real \<times> real \<Rightarrow> real"
      using m by (rule sum_list_mset_cong)
    have s1: "sum_list (map snd fr) = sum_list (map snd fr')" by (rule s)
    have s2: "sum_list (map (\<lambda>v. (v - c)\<^sup>2) (map snd fr))
            = sum_list (map (\<lambda>v. (v - c)\<^sup>2) (map snd fr'))" for c
      using s[of "\<lambda>p. (snd p - c)\<^sup>2"] by (simp add: comp_def)
    show ?thesis
      using l e s1 s2 by (simp add: in_sample_score_def toy_lib_def toy_score_def)
  qed
  then show ?thesis unfolding order_blind_def by blast
qed

section \<open>The resampling evaluation\<close>



text \<open>
  C2. The resampling evaluation reseeds the global random state before it draws
  anything, and reads nothing of the namespace but \<open>df\<close>. So two invocations with the
  same library, seed, sample size, replacement flag and repetition count, from any two
  namespaces that hold the same dataset (whatever their random states, estimators and
  earlier records), either both fail with the same error or both complete with the same
  summary, the same recorded scores, RMSEs and predictions, and the same query point.
\<close>

theorem evaluation_reproducible:
  assumes "df s1 = df s2"
  shows "fst (evaluate L sd n replace reps s1) = fst (evaluate L sd n replace reps s2)
    \<and> completed (resample L sd n replace reps s1) = completed (resample L sd n replace reps s2)
    \<and> (completed (resample L sd n replace reps s1) \<longrightarrow>
         r_2 (final (resample L sd n replace reps s1)) = r_2 (final (resample L sd n replace reps s2))
       \<and> simple_rmse (final (resample L sd n replace reps s1))
           = simple_rmse (final (resample L sd n replace reps s2))
       \<and> point_preds (final (resample L sd n replace reps s1))
           = point_preds (final (resample L sd n replace reps s2))
       \<and> sample_point (final (resample L sd n replace reps s1))
           = sample_point (final (resample L sd n replace reps s2)))"
  using resample_agree[OF assms, of L sd n replace reps]
  by (auto simp: evaluate_def cell8_def agree_def)

theorem evaluation_reproducible_witness:
  "df (nb0 [(1,0),(2,1),(3,3)]) = df ((nb0 [(1,0),(2,1),(3,3)])\<lparr>rng := 7, lr := Fitted 1, r_2 := [Num 9]\<rparr>)
   \<and> rng (nb0 [(1,0),(2,1),(3,3)]) \<noteq> rng ((nb0 [(1,0),(2,1),(3,3)])\<lparr>rng := 7, lr := Fitted 1, r_2 := [Num 9]\<rparr>)
   \<and> completed (resample toy_lib 42 2 True 2 (nb0 [(1,0),(2,1),(3,3)]))
   \<and> fst (evaluate toy_lib 42 2 True 2 (nb0 [(1,0),(2,1),(3,3)]))
     = fst (evaluate toy_lib 42 2 True 2 ((nb0 [(1,0),(2,1),(3,3)])\<lparr>rng := 7, lr := Fitted 1, r_2 := [Num 9]\<rparr>))"
proof -
  have d: "df (nb0 [(1,0),(2,1),(3,3)])
      = df ((nb0 [(1,0),(2,1),(3,3)])\<lparr>rng := 7, lr := Fitted 1, r_2 := [Num 9]\<rparr>)"
    by simp
  have c: "completed (resample toy_lib 42 2 True 2 (nb0 [(1,0),(2,1),(3,3)]))"
    by (simp add: cell_defs toy_defs run_simps)
  from evaluation_reproducible[OF d, of toy_lib 42 2 True 2] c d show ?thesis
    by (simp add: nb0_def)
qed

text \<open>
  C9. The resampling evaluation and the cross-validation leave the dataset
  \<open>df\<close> as it was, whether they complete or raise. They do have other effects: they
  rebind the notebook's names (the record lists, \<open>X\<close>, \<open>y\<close>, \<open>lr\<close>, the query point)
  and reseed and advance the global random state.
\<close>

theorem dataset_unchanged:
  "df (snd (evaluate L sd n replace reps s)) = df s \<and> df (snd (crossValidate L k s)) = df s"
  by (simp add: snd_evaluate snd_crossValidate resample_frame kfold_loop_frame cell38_def)

theorem dataset_unchanged_witness:
  "df (snd (evaluate toy_lib 42 2 True 2 (nb0 [(1,0),(2,1),(3,3)]))) = [(1,0),(2,1),(3,3)]
   \<and> df (snd (crossValidate toy_lib 3 (nb0 [(1,0),(2,1),(3,3)]))) = [(1,0),(2,1),(3,3)]"
  using dataset_unchanged[of toy_lib 42 2 True 2 "nb0 [(1,0),(2,1),(3,3)]" 3]
  by (simp add: nb0_def)

theorem other_effects_counterexample:
  "rng (nb0 [(1,0),(2,1),(3,3)]) = 0
   \<and> rng (snd (evaluate toy_lib 42 1 True 1 (nb0 [(1,0),(2,1),(3,3)]))) = 44
   \<and> lr (nb0 [(1,0),(2,1),(3,3)]) = Unfit
   \<and> lr (snd (crossValidate toy_lib 3 (nb0 [(1,0),(2,1),(3,3)]))) = Fitted (1 / 2)"
  by (simp add: cell_defs toy_defs run_simps)

text \<open>
  C8. With one repetition, a resampling evaluation that returns a summary has recorded one
  prediction, one in-sample score and one RMSE, for a library whose draw returns as many
  positions as asked and whose \<open>predict\<close> returns one prediction per row. The prediction
  variance of its summary is exactly 0 when the recorded prediction is a number, and
  \<open>nan\<close> when it is \<open>nan\<close>. The summary holds no score variance; the variance of the one
  recorded score (and of the one recorded RMSE) is exactly 0 when that score is a number
  and \<open>nan\<close> when it is \<open>nan\<close>, as the score of a one-row sample is.
\<close>

theorem single_repetition_variance:
  assumes "draws_exact L" and "predicts_rowwise L"
    and "evaluate L sd n replace 1 s = (Inr sm, s')"
  shows "\<exists>p r m. point_preds s' = [[p]] \<and> r_2 s' = [r] \<and> simple_rmse s' = [m]
     \<and> simple_variance sm = (case p of Num v \<Rightarrow> Num 0 | NaN \<Rightarrow> NaN)
     \<and> np_var (r_2 s') = (case r of Num v \<Rightarrow> Num 0 | NaN \<Rightarrow> NaN)
     \<and> np_var (simple_rmse s') = (case m of Num v \<Rightarrow> Num 0 | NaN \<Rightarrow> NaN)"
proof -
  from assms(3) have run: "resample L sd n replace 1 s = Done s'" and sm: "sm = cell8 s'"
    by (auto simp: evaluate_def split: run.splits)
  from resample_Done[OF run] obtain pt g where
    q: "frame_sample L (seed L sd) 1 False (map fst (df s)) = Inr (pt, g)" and
    loop: "for_range 1 (repetition L n replace)
         (s\<lparr>rng := g, sample_point := pt, point_preds := [], r_2 := [], simple_rmse := []\<rparr>)
        = Done s'" by blast
  let ?s0 = "s\<lparr>rng := g, sample_point := pt, point_preds := [], r_2 := [], simple_rmse := []\<rparr>"
  from loop have body: "repetition L n replace ?s0 = Done s'"
    by (simp add: for_range_1 split: run.splits)
  from repetition_Done[OF body] obtain m mse r2 yp where
    p: "predict L m pt = Inr yp" and
    rec: "r_2 s' = [r2]" "simple_rmse s' = [np_sqrt L mse]" "point_preds s' = [yp]"
    by auto
  have "length pt = 1" using frame_sample_length[OF assms(1) q] .
  moreover have "length yp = length pt" using assms(2) p by (auto simp: predicts_rowwise_def)
  ultimately obtain v where yp: "yp = [v]" by (cases yp) auto
  have "simple_variance sm = np_var [v]" using rec yp sm by (simp add: cell8_def)
  then show ?thesis using rec yp by (simp add: np_var_single)
qed

theorem single_repetition_variance_witness:
  "draws_exact toy_lib \<and> predicts_rowwise toy_lib
   \<and> completed (resample toy_lib 42 2 True 1 (nb0 [(1, 0), (2, 1), (3, 3)]))
   \<and> r_2 (snd (evaluate toy_lib 42 2 True 1 (nb0 [(1, 0), (2, 1), (3, 3)]))) = [Num (- 2)]
   \<and> point_preds (snd (evaluate toy_lib 42 2 True 1 (nb0 [(1, 0), (2, 1), (3, 3)]))) = [[Num 2]]
   \<and> fst (evaluate toy_lib 42 2 True 1 (nb0 [(1, 0), (2, 1), (3, 3)]))
       = Inr \<lparr>simple_mean = Num 1, simple_variance = Num 0\<rparr>
   \<and> np_var (r_2 (snd (evaluate toy_lib 42 2 True 1 (nb0 [(1, 0), (2, 1), (3, 3)])))) = Num 0"
proof -
  let ?s = "nb0 [(1, 0), (2, 1), (3, 3)]"
  let ?s' = "snd (evaluate toy_lib 42 2 True 1 ?s)"
  have c: "completed (resample toy_lib 42 2 True 1 ?s)"
    by (simp add: cell_defs toy_defs run_simps)
  have e: "fst (evaluate toy_lib 42 2 True 1 ?s) = Inr (cell8 ?s')"
    using c by (cases "resample toy_lib 42 2 True 1 ?s") (auto simp: evaluate_def)
  then have r: "evaluate toy_lib 42 2 True 1 ?s = (Inr (cell8 ?s'), ?s')"
    by (simp add: prod_eq_iff)
  have v: "r_2 ?s' = [Num (- 2)]" "point_preds ?s' = [[Num 2]]"
    "simple_mean (cell8 ?s') = Num 1"
    by (simp_all add: cell_defs toy_defs run_simps)
  from single_repetition_variance[OF toy_lib_draws_exact toy_lib_predicts_rowwise r]
  have "simple_variance (cell8 ?s') = Num 0" and "np_var (r_2 ?s') = Num 0"
    using v by auto
  with v e c toy_lib_draws_exact toy_lib_predicts_rowwise
  show ?thesis by (cases "cell8 ?s'") simp
qed

theorem one_row_sample_counterexample:
  "completed (resample toy_lib 42 1 True 1 (nb0 [(1, 0), (2, 1), (3, 3)]))
   \<and> fst (evaluate toy_lib 42 1 True 1 (nb0 [(1, 0), (2, 1), (3, 3)]))
       = Inr \<lparr>simple_mean = Num 0, simple_variance = Num 0\<rparr>
   \<and> r_2 (snd (evaluate toy_lib 42 1 True 1 (nb0 [(1, 0), (2, 1), (3, 3)]))) = [NaN]
   \<and> np_var (r_2 (snd (evaluate toy_lib 42 1 True 1 (nb0 [(1, 0), (2, 1), (3, 3)])))) = NaN"
  by (simp add: cell_defs toy_defs run_simps)

text \<open>
  C5. In a resampling run that completes, the query point is what the first
  draw after seeding returns from the feature rows of the whole dataset, it stays the
  same through all repetitions, and every training sample is drawn from that same whole
  dataset by a freshly constructed estimator's \<open>fit\<close>: nothing keeps the query row out of
  the training samples.
\<close>

theorem query_point_from_dataset:
  assumes "resample L sd n replace reps s = Done s'"
  shows "\<exists>pt g. frame_sample L (seed L sd) 1 False (map fst (df s)) = Inr (pt, g)
     \<and> sample_point s' = pt \<and> set pt \<subseteq> fst ` set (df s)
     \<and> list_all (\<lambda>c. fst c = Unfit \<and> set (zip (fst (snd c)) (snd (snd c))) \<subseteq> set (df s))
          (drop (length (fit_log s)) (fit_log s'))"
proof -
  from resample_Done[OF assms] obtain pt g where
    q: "frame_sample L (seed L sd) 1 False (map fst (df s)) = Inr (pt, g)" and
    loop: "for_range reps (repetition L n replace)
         (s\<lparr>rng := g, sample_point := pt, point_preds := [], r_2 := [], simple_rmse := []\<rparr>)
        = Done s'" by blast
  let ?s0 = "s\<lparr>rng := g, sample_point := pt, point_preds := [], r_2 := [], simple_rmse := []\<rparr>"
  define P :: "'c estimator \<times> 'b list \<times> real list \<Rightarrow> bool"
    where "P = (\<lambda>c. fst c = Unfit \<and> set (zip (fst (snd c)) (snd (snd c))) \<subseteq> set (df s))"
  define I :: "('a, 'b, 'c) notebook \<Rightarrow> bool"
    where "I = (\<lambda>t. df t = df s \<and> sample_point t = pt \<and> logged_from (length (fit_log s)) P t)"
  have step: "I t'" if i: "I t" and b: "repetition L n replace t = Done t'" for t t'
  proof -
    from repetition_step[OF b] obtain d g' where
      fs: "frame_sample L (rng t) n replace (df t) = Inr (d, g')" and
      keep: "df t' = df t" "sample_point t' = sample_point t" and
      lg: "fit_log t' = fit_log t @ [(Unfit, map fst d, map snd d)]" by blast
    from i have dft: "df t = df s" and spt: "sample_point t = pt"
      and lf: "logged_from (length (fit_log s)) P t" by (simp_all add: I_def)
    have "set d \<subseteq> set (df s)" using frame_sample_subset[OF fs] dft by simp
    then have "P (Unfit, map fst d, map snd d)" by (simp add: P_def zip_map_fst_snd)
    with lf lg have "logged_from (length (fit_log s)) P t'" by (rule logged_from_append)
    with dft spt keep show ?thesis by (simp add: I_def)
  qed
  have init: "I ?s0" by (simp add: I_def logged_from_def)
  have "I s'" using step init loop by (rule for_range_inv)
  then have "sample_point s' = pt" and "list_all P (drop (length (fit_log s)) (fit_log s'))"
    by (simp_all add: I_def logged_from_def)
  moreover have "set pt \<subseteq> fst ` set (df s)" using frame_sample_subset[OF q] by simp
  ultimately show ?thesis using q unfolding P_def by blast
qed

theorem query_point_from_dataset_witness:
  "completed (resample toy_lib 42 3 True 1 (nb0 [(1, 0), (2, 1), (3, 3)]))
   \<and> sample_point (final (resample toy_lib 42 3 True 1 (nb0 [(1, 0), (2, 1), (3, 3)]))) = [1]
   \<and> (\<exists>pt g. frame_sample toy_lib (seed toy_lib 42) 1 False (map fst (df (nb0 [(1, 0), (2, 1), (3, 3)])))
          = Inr (pt, g) \<and> set pt \<subseteq> fst ` set (df (nb0 [(1, 0), (2, 1), (3, 3)])))"
proof -
  let ?s = "nb0 [(1, 0), (2, 1), (3, 3)]"
  have c: "completed (resample toy_lib 42 3 True 1 ?s)"
    by (simp add: cell_defs toy_defs run_simps)
  then obtain s' where run: "resample toy_lib 42 3 True 1 ?s = Done s'"
    by (cases "resample toy_lib 42 3 True 1 ?s") auto
  have p: "sample_point (final (resample toy_lib 42 3 True 1 ?s)) = [1]"
    by (simp add: cell_defs toy_defs run_simps)
  from query_point_from_dataset[OF run] c p show ?thesis by blast
qed

theorem query_point_in_training_counterexample:
  "sample_point (final (resample toy_lib 42 3 True 1 (nb0 [(1, 0), (2, 1), (3, 3)]))) = [1]
   \<and> fit_log (final (resample toy_lib 42 3 True 1 (nb0 [(1, 0), (2, 1), (3, 3)])))
       = [(Unfit, [2, 3, 1], [1, 3, 0])]"
  by (simp add: cell_defs toy_defs run_simps)

text \<open>
  C6. With a sample size equal to the row count and without replacement,
  for a library whose draws return as many positions as asked and no position twice,
  every repetition of a run that completes fits on all rows of the dataset, each exactly
  once, in the order drawn; and when the library is order-blind, every recorded in-sample
  score is the in-sample score of the dataset itself, so all recorded scores are equal.
\<close>

theorem whole_dataset_same_scores:
  assumes "draws_exact L" and "draws_distinct L" and "order_blind L"
    and "resample L sd (length (df s)) False reps s = Done s'"
  shows "list_all (\<lambda>c. mset (zip (fst (snd c)) (snd (snd c))) = mset (df s))
           (drop (length (fit_log s)) (fit_log s'))
     \<and> list_all (\<lambda>v. in_sample_score L (df s) = Inr v) (r_2 s')
     \<and> (\<forall>i<reps. \<forall>j<reps. r_2 s' ! i = r_2 s' ! j)"
proof -
  from resample_Done[OF assms(4)] obtain pt g where
    loop: "for_range reps (repetition L (length (df s)) False)
         (s\<lparr>rng := g, sample_point := pt, point_preds := [], r_2 := [], simple_rmse := []\<rparr>)
        = Done s'" by blast
  let ?s0 = "s\<lparr>rng := g, sample_point := pt, point_preds := [], r_2 := [], simple_rmse := []\<rparr>"
  define P :: "'c estimator \<times> 'b list \<times> real list \<Rightarrow> bool"
    where "P = (\<lambda>c. mset (zip (fst (snd c)) (snd (snd c))) = mset (df s))"
  define Q :: "num \<Rightarrow> bool" where "Q = (\<lambda>v. in_sample_score L (df s) = Inr v)"
  define I :: "('a, 'b, 'c) notebook \<Rightarrow> bool"
    where "I = (\<lambda>t. df t = df s \<and> logged_from (length (fit_log s)) P t \<and> list_all Q (r_2 t))"
  have step: "I t'" if i: "I t" and b: "repetition L (length (df s)) False t = Done t'" for t t'
  proof -
    from repetition_step[OF b] obtain d g' v where
      fs: "frame_sample L (rng t) (length (df s)) False (df t) = Inr (d, g')" and
      keep: "df t' = df t" and
      lg: "fit_log t' = fit_log t @ [(Unfit, map fst d, map snd d)]" and
      sc: "in_sample_score L d = Inr v" "r_2 t' = r_2 t @ [v]" by blast
    from i have dft: "df t = df s" and lf: "logged_from (length (fit_log s)) P t"
      and qs: "list_all Q (r_2 t)" by (simp_all add: I_def)
    from fs dft have "frame_sample L (rng t) (length (df s)) False (df s) = Inr (d, g')" by simp
    with assms(1,2) have m: "mset d = mset (df s)" by (rule frame_sample_all)
    then have "P (Unfit, map fst d, map snd d)" by (simp add: P_def zip_map_fst_snd)
    with lf lg have l': "logged_from (length (fit_log s)) P t'" by (rule logged_from_append)
    from assms(3) m have "in_sample_score L d = in_sample_score L (df s)"
      unfolding order_blind_def by blast
    with sc(1) have "Q v" by (simp add: Q_def)
    with qs sc(2) have "list_all Q (r_2 t')" by simp
    with dft keep l' show ?thesis by (simp add: I_def)
  qed
  have init: "I ?s0" by (simp add: I_def logged_from_def)
  have "I s'" using step init loop by (rule for_range_inv)
  then have a: "list_all P (drop (length (fit_log s)) (fit_log s'))" and b: "list_all Q (r_2 s')"
    by (simp_all add: I_def logged_from_def)
  have len: "length (r_2 s') = reps"
    using resample_lengths[OF assms(4)] by simp
  have c: "r_2 s' ! i = r_2 s' ! j" if "i < reps" "j < reps" for i j
  proof -
    from b that len have "Q (r_2 s' ! i)" "Q (r_2 s' ! j)" by (simp_all add: list_all_length)
    then show ?thesis by (simp add: Q_def)
  qed
  from a b c show ?thesis unfolding P_def Q_def by blast
qed

theorem whole_dataset_same_scores_witness:
  "draws_exact toy_lib \<and> draws_distinct toy_lib \<and> order_blind toy_lib
   \<and> completed (resample toy_lib 42 (length (df (nb0 [(1, 0), (2, 1), (3, 3)]))) False 2
                  (nb0 [(1, 0), (2, 1), (3, 3)]))
   \<and> r_2 (final (resample toy_lib 42 3 False 2 (nb0 [(1, 0), (2, 1), (3, 3)])))
       = [Num (- (14 / 3)), Num (- (14 / 3))]
   \<and> list_all (\<lambda>v. in_sample_score toy_lib (df (nb0 [(1, 0), (2, 1), (3, 3)])) = Inr v)
        (r_2 (final (resample toy_lib 42 (length (df (nb0 [(1, 0), (2, 1), (3, 3)]))) False 2
                       (nb0 [(1, 0), (2, 1), (3, 3)]))))"
proof -
  let ?s = "nb0 [(1, 0), (2, 1), (3, 3)]"
  have c: "completed (resample toy_lib 42 (length (df ?s)) False 2 ?s)"
    by (simp add: cell_defs toy_defs run_simps)
  then have run: "resample toy_lib 42 (length (df ?s)) False 2 ?s
      = Done (final (resample toy_lib 42 (length (df ?s)) False 2 ?s))"
    by (cases "resample toy_lib 42 (length (df ?s)) False 2 ?s") auto
  have r: "r_2 (final (resample toy_lib 42 3 False 2 ?s)) = [Num (- (14 / 3)), Num (- (14 / 3))]"
    by (simp add: cell_defs toy_defs run_simps)
  from whole_dataset_same_scores[OF toy_lib_draws_exact toy_lib_draws_distinct
      toy_lib_order_blind run]
    c r toy_lib_draws_exact toy_lib_draws_distinct toy_lib_order_blind
  show ?thesis by blast
qed

theorem order_dependent_fit_counterexample:
  "r_2 (final (resample first_lib 42 3 False 2 (nb0 [(1, 0), (2, 1), (3, 3)]))) = [Num (- 5), Num (- 13)]
   \<and> fit_log (final (resample first_lib 42 3 False 2 (nb0 [(1, 0), (2, 1), (3, 3)])))
       = [(Unfit, [2, 3, 1], [1, 3, 0]), (Unfit, [3, 1, 2], [3, 0, 1])]"
  by (simp add: cell_defs toy_defs run_simps)

section \<open>Failures\<close>













text \<open>
  C3. The cross-validation with \<open>k = 1\<close> fails with \<open>InvalidK\<close>, and with
  \<open>k \<ge> 2\<close> on a dataset of zero rows it fails with \<open>EmptyDataset\<close>; both come from the
  fold splitter, before any call of \<open>fit\<close>. The resampling evaluation checks nothing
  itself: when the draw of the query point fails (as a draw from an empty dataset does),
  it fails with that error, before any call of \<open>fit\<close>. A sample size of 0 is not
  rejected before fitting.
\<close>

theorem input_validation:
  "fst (crossValidate L 1 s) = Inl InvalidK
   \<and> fit_log (snd (crossValidate L 1 s)) = fit_log s
   \<and> (df s = [] \<and> 2 \<le> k \<longrightarrow>
        fst (crossValidate L k s) = Inl EmptyDataset
      \<and> fit_log (snd (crossValidate L k s)) = fit_log s)
   \<and> (frame_sample L (seed L sd) 1 False (map fst (df s)) = Inl e \<longrightarrow>
        fst (evaluate L sd n replace reps s) = Inl e
      \<and> fit_log (snd (evaluate L sd n replace reps s)) = fit_log s)"
  by (simp add: crossValidate_def kfold_loop_def KFold_def KFold_split_def cell38_def call_def
        evaluate_def resample_def Let_def)

theorem input_validation_witness:
  "df (nb0 []) = [] \<and> (2::nat) \<le> 2
   \<and> frame_sample toy_lib (seed toy_lib 42) 1 False (map fst (df (nb0 []))) = Inl (LibraryError ''ValueError'')
   \<and> fst (crossValidate toy_lib 1 (nb0 [])) = Inl InvalidK
   \<and> fst (crossValidate toy_lib 2 (nb0 [])) = Inl EmptyDataset
   \<and> fst (evaluate toy_lib 42 5000 True 100 (nb0 [])) = Inl (LibraryError ''ValueError'')
   \<and> fit_log (snd (evaluate toy_lib 42 5000 True 100 (nb0 []))) = []"
proof -
  have a: "df (nb0 []) = []" by (simp add: nb0_def)
  have b: "(2::nat) \<le> 2" by simp
  have c: "frame_sample toy_lib (seed toy_lib 42) 1 False (map fst (df (nb0 [])))
      = Inl (LibraryError ''ValueError'')"
    by (simp add: cell_defs toy_defs)
  have d: "fit_log (nb0 []) = []" by (simp add: nb0_def)
  from input_validation[of toy_lib "nb0 []" 2 42 "LibraryError ''ValueError''" 5000 True 100]
    a b c d show ?thesis by simp
qed

theorem sample_size_zero_counterexample:
  "fst (evaluate toy_lib 42 0 True 2 (nb0 [(1, 0), (2, 1), (3, 3)]))
     = Inl (LibraryError ''ValueError'')
   \<and> fit_log (snd (evaluate toy_lib 42 0 True 2 (nb0 [(1, 0), (2, 1), (3, 3)])))
     = [(Unfit, [], [])]"
  by (simp add: cell_defs toy_defs run_simps)

section \<open>The estimator of the k-fold loop\<close>

text \<open>
  C4. On a dataset of three rows with two folds, started right after
  \<open>lr = LinearRegression()\<close>, the second fold's \<open>fit\<close> is called on the estimator as the
  first fold fitted it, not on a fresh one; the resampling loop does construct a fresh
  estimator in every repetition.
\<close>

theorem kfold_refits_shared_estimator:
  "map fst (fit_log (final (kfold_loop toy_lib 2 (cell38 (cell21 (nb0 [(1, 0), (2, 1), (3, 3)]))))))
     = [Unfit, Fitted 3]
   \<and> map fst (fit_log (final (resample toy_lib 42 2 True 2 (nb0 [(1, 0), (2, 1), (3, 3)]))))
     = [Unfit, Unfit]"
  by (simp add: cell_defs toy_defs run_simps)

end
